theory Spec2Isabelle
  imports Main "HOL-Library.Multiset"
begin

section \<open>Values of the program\<close>

text \<open>
  The program is one Go file, \<^verbatim>\<open>main.go\<close>. Go strings are byte sequences, so a Go
  string is a \<^typ>\<open>string\<close> here. A Go function that returns \<^verbatim>\<open>(value, error)\<close>
  returns a pair whose second component is \<^term>\<open>None\<close> for the nil error.
\<close>

datatype error =
  OSError string
  \<comment> \<open>an error value produced by the operating system or by a library call\<close>
| AbsPathError string error
  \<comment> \<open>the error built by \<^verbatim>\<open>fmt.Errorf\<close> at line 139, from the entry's path and the cause\<close>
| NilDereference
  \<comment> \<open>the run-time panic of calling a method on a nil \<^verbatim>\<open>os.FileInfo\<close>\<close>

text \<open>\<^verbatim>\<open>type VideoInfo struct { Path string; ModTime time.Time }\<close>, the time as an instant
  counted in nanoseconds.\<close>

record VideoInfo =
  Path :: string
  ModTime :: int

text \<open>What the callback of \<^verbatim>\<open>filepath.Walk\<close> reads of an \<^verbatim>\<open>os.FileInfo\<close>.\<close>

datatype FileInfo = FileInfo (IsDir: bool) (InfoModTime: int)

text \<open>
  The file tree found under a path, as \<^verbatim>\<open>filepath.Walk\<close> sees it through \<^verbatim>\<open>os.Lstat\<close>
  and the reading of directories. Walk does not follow symbolic links: anything that is not
  a directory (a regular file, a symbolic link, a device) is a \<open>File\<close>.
\<close>

datatype node =
  File int
  \<comment> \<open>an entry that is not a directory, with its modification time\<close>
| Dir int "(string \<times> node) list"
  \<comment> \<open>a directory: its modification time and its entries, in the order in which
      \<^verbatim>\<open>readDirNames\<close> returns the names (sorted)\<close>
| Unreadable int error
  \<comment> \<open>a directory whose entries cannot be read\<close>
| NoStat error
  \<comment> \<open>a name whose \<^verbatim>\<open>lstat\<close> fails\<close>

section \<open>The host: operating system and library\<close>

text \<open>
  Everything the program asks of its environment. The library functions whose code is not
  part of the repository and which are too large to restate (\<^verbatim>\<open>sort.Slice\<close>,
  \<^verbatim>\<open>filepath.Join\<close>, \<^verbatim>\<open>filepath.Clean\<close>, the Unicode part of \<^verbatim>\<open>strings.ToLower\<close>) are
  fields of the host, as are the outcomes of the calls that can fail.
\<close>

record host =
  GOOS :: string
  \<comment> \<open>\<^verbatim>\<open>runtime.GOOS\<close>\<close>
  lookPath :: "string \<Rightarrow> bool"
  \<comment> \<open>whether \<^verbatim>\<open>exec.LookPath\<close> resolves the name\<close>
  lstat :: "string \<Rightarrow> node"
  \<comment> \<open>the file tree under a root path\<close>
  Join :: "string \<Rightarrow> string \<Rightarrow> string"
  \<comment> \<open>\<^verbatim>\<open>filepath.Join\<close> of a directory path and an entry name\<close>
  unicodeToLower :: "string \<Rightarrow> string"
  \<comment> \<open>\<^verbatim>\<open>strings.Map(unicode.ToLower, s)\<close>, used for a string with a byte outside ASCII\<close>
  sort_Slice :: "(VideoInfo \<Rightarrow> VideoInfo \<Rightarrow> bool) \<Rightarrow> VideoInfo list \<Rightarrow> VideoInfo list"
  \<comment> \<open>\<^verbatim>\<open>sort.Slice\<close>: the slice after sorting with the given less function\<close>
  Clean :: "string \<Rightarrow> string"
  \<comment> \<open>\<^verbatim>\<open>filepath.Clean\<close>\<close>
  Getwd :: "string \<times> error option"
  \<comment> \<open>\<^verbatim>\<open>os.Getwd()\<close>: the working directory of the process\<close>
  FullPath :: "string \<Rightarrow> string \<times> error option"
  \<comment> \<open>\<^verbatim>\<open>syscall.FullPath\<close> of Windows, which computes the full path of a name from the name
      and the current directories of the process\<close>
  Stat :: "string \<Rightarrow> error option"
  \<comment> \<open>the error of \<^verbatim>\<open>os.Stat\<close>, which follows symbolic links: it fails for a link whose
      target is missing, and for a name that has been removed. The program never calls it.\<close>
  TempDir :: string
  \<comment> \<open>\<^verbatim>\<open>os.TempDir()\<close>\<close>
  createTemp :: "error + string"
  \<comment> \<open>\<^verbatim>\<open>os.CreateTemp\<close>: an error, or the random string that replaces the \<^verbatim>\<open>*\<close> of the pattern\<close>
  writeString :: "nat \<Rightarrow> error option"
  \<comment> \<open>the error returned by the \<open>k\<close>-th call of \<^verbatim>\<open>writer.WriteString\<close>, counted from 0\<close>
  flush :: "error option"
  \<comment> \<open>the error returned by \<^verbatim>\<open>writer.Flush\<close>\<close>
  persisted :: nat
  \<comment> \<open>how many bytes of the text handed to the writer reached the file when a write or
      the flush failed\<close>
  run :: "string list \<Rightarrow> error option"
  \<comment> \<open>\<^verbatim>\<open>cmd.Run()\<close> of the command with these words: nil when it exits with status 0\<close>

text \<open>The files of the temporary directory: name to content.\<close>

type_synonym files = "string \<rightharpoonup> string"

section \<open>Strings\<close>

definition quote :: char where
  "quote = CHR 0x27"

definition backslash :: char where
  "backslash = CHR 0x5C"

definition newline :: char where
  "newline = CHR 0x0A"

text \<open>
  \<^verbatim>\<open>strings.ReplaceAll(s, old, new)\<close> for a pattern \<open>old\<close> of one byte, which is how line 158
  calls it: every occurrence of the byte is replaced, left to right.
\<close>

primrec ReplaceAll :: "string \<Rightarrow> char \<Rightarrow> string \<Rightarrow> string" where
  "ReplaceAll [] old new = []"
| "ReplaceAll (c # s) old new =
     (if c = old then new @ ReplaceAll s old new else c # ReplaceAll s old new)"

text \<open>\<^verbatim>\<open>fmt.Sprintf("file '%s'\n", escapedPath)\<close>, line 160.\<close>

definition Sprintf_file :: "string \<Rightarrow> string" where
  "Sprintf_file escapedPath = ''file '' @ [quote] @ escapedPath @ [quote, newline]"

text \<open>The text written for one path: lines 158 and 160.\<close>

definition directive :: "string \<Rightarrow> string" where
  "directive file = Sprintf_file (ReplaceAll file quote [quote, backslash, quote, quote])"

text \<open>\<^verbatim>\<open>os.IsPathSeparator\<close>: the slash, and on Windows the backslash too.\<close>

definition IsPathSeparator :: "host \<Rightarrow> char \<Rightarrow> bool" where
  "IsPathSeparator h c \<longleftrightarrow> c = CHR ''/'' \<or> (GOOS h = ''windows'' \<and> c = backslash)"

text \<open>
  \<^verbatim>\<open>filepath.Ext\<close>: the suffix beginning at the final dot of the final element of the
  path, empty when that element has no dot. \<open>ext_rev\<close> is its loop, which reads the path
  from its last byte; the accumulator holds the bytes already passed.
\<close>

fun ext_rev :: "host \<Rightarrow> string \<Rightarrow> string \<Rightarrow> string" where
  "ext_rev h [] acc = []"
| "ext_rev h (c # cs) acc =
     (if IsPathSeparator h c then []
      else if c = CHR ''.'' then c # acc
      else ext_rev h cs (c # acc))"

definition Ext :: "host \<Rightarrow> string \<Rightarrow> string" where
  "Ext h path = ext_rev h (rev path) []"

text \<open>
  \<^verbatim>\<open>strings.ToLower\<close>: a string of ASCII bytes has its letters \<open>A\<close> to \<open>Z\<close> mapped to
  \<open>a\<close> to \<open>z\<close>; any other string goes through the Unicode mapping.
\<close>

definition asciiLower :: "char \<Rightarrow> char" where
  "asciiLower c =
     (if of_char (CHR ''A'') \<le> (of_char c :: nat) \<and> (of_char c :: nat) \<le> of_char (CHR ''Z'')
      then char_of ((of_char c :: nat) + 32) else c)"

definition isASCII :: "string \<Rightarrow> bool" where
  "isASCII s \<longleftrightarrow> list_all (\<lambda>c. (of_char c :: nat) < 128) s"

definition ToLower :: "host \<Rightarrow> string \<Rightarrow> string" where
  "ToLower h s = (if isASCII s then map asciiLower s else unicodeToLower h s)"

section \<open>Scanning: \<^verbatim>\<open>filepath.Walk\<close> and its callback\<close>

text \<open>
  \<^verbatim>\<open>supportedExtensions\<close>, lines 106 to 111: a \<^verbatim>\<open>map[string]bool\<close>; a key that is absent
  reads as false.
\<close>

definition supportedExtensions :: "string \<rightharpoonup> bool" where
  "supportedExtensions =
     map_of [(''.mp4'', True), (''.mov'', True), (''.mkv'', True), (''.avi'', True)]"

definition supported :: "string \<Rightarrow> bool" where
  "supported ext = (case supportedExtensions ext of Some b \<Rightarrow> b | None \<Rightarrow> False)"

text \<open>
  The function literal of lines 113 to 124. It appends to \<^verbatim>\<open>videos\<close>, a variable of the
  enclosing function: the list is passed in and returned. \<^verbatim>\<open>filepath.Walk\<close> never calls it
  with neither an info nor an error; Go would panic there on the nil info, and the model
  returns \<open>NilDereference\<close>.
\<close>

definition walkFn ::
  "host \<Rightarrow> string \<Rightarrow> FileInfo option \<Rightarrow> error option \<Rightarrow> VideoInfo list
     \<Rightarrow> error option \<times> VideoInfo list" where
  "walkFn h path info err videos =
     (case err of
        Some e \<Rightarrow> (Some e, videos)
      | None \<Rightarrow>
          (case info of
             None \<Rightarrow> (Some NilDereference, videos)
           | Some i \<Rightarrow>
               if \<not> IsDir i then
                 (let ext = ToLower h (Ext h path) in
                  if supported ext
                  then (None, videos @ [\<lparr>Path = path, ModTime = InfoModTime i\<rparr>])
                  else (None, videos))
               else (None, videos)))"

text \<open>
  \<^verbatim>\<open>filepath.Walk\<close> and its helper \<^verbatim>\<open>walk\<close>, for a callback that never returns
  \<^verbatim>\<open>filepath.SkipDir\<close> or \<^verbatim>\<open>filepath.SkipAll\<close> (the callback above returns only the errors
  it is given): a file is handed to the callback; a directory is handed to the callback
  together with the error of reading its names, and then its entries are walked in order;
  the first error the callback returns ends the walk.
\<close>

fun walk ::
  "host \<Rightarrow> (string \<Rightarrow> FileInfo option \<Rightarrow> error option \<Rightarrow> 's \<Rightarrow> error option \<times> 's)
     \<Rightarrow> string \<Rightarrow> node \<Rightarrow> 's \<Rightarrow> error option \<times> 's"
  and walk_names ::
  "host \<Rightarrow> (string \<Rightarrow> FileInfo option \<Rightarrow> error option \<Rightarrow> 's \<Rightarrow> error option \<times> 's)
     \<Rightarrow> string \<Rightarrow> (string \<times> node) list \<Rightarrow> 's \<Rightarrow> error option \<times> 's" where
  "walk h fn path (File t) s = fn path (Some (FileInfo False t)) None s"
| "walk h fn path (NoStat e) s = fn path None (Some e) s"
| "walk h fn path (Unreadable t e) s = fn path (Some (FileInfo True t)) (Some e) s"
| "walk h fn path (Dir t entries) s =
     (case fn path (Some (FileInfo True t)) None s of
        (Some err1, s') \<Rightarrow> (Some err1, s')
      | (None, s') \<Rightarrow> walk_names h fn path entries s')"
| "walk_names h fn path [] s = (None, s)"
| "walk_names h fn path ((name, n) # entries) s =
     (case walk h fn (Join h path name) n s of
        (Some err, s') \<Rightarrow> (Some err, s')
      | (None, s') \<Rightarrow> walk_names h fn path entries s')"

definition Walk ::
  "host \<Rightarrow> string \<Rightarrow> (string \<Rightarrow> FileInfo option \<Rightarrow> error option \<Rightarrow> 's \<Rightarrow> error option \<times> 's)
     \<Rightarrow> 's \<Rightarrow> error option \<times> 's" where
  "Walk h root fn s = walk h fn root (lstat h root) s"

section \<open>\<^verbatim>\<open>findAndSortVideos\<close>\<close>

text \<open>The less function of lines 131 to 133: \<^verbatim>\<open>videos[i].ModTime.Before(videos[j].ModTime)\<close>.\<close>

definition lessModTime :: "VideoInfo \<Rightarrow> VideoInfo \<Rightarrow> bool" where
  "lessModTime a b \<longleftrightarrow> ModTime a < ModTime b"

text \<open>
  \<^verbatim>\<open>filepath.IsAbs\<close> on a system other than Windows: the path begins with a slash.
\<close>

definition IsAbs :: "string \<Rightarrow> bool" where
  "IsAbs path = (case path of [] \<Rightarrow> False | c # cs \<Rightarrow> c = CHR ''/'')"

text \<open>
  \<^verbatim>\<open>filepath.Abs\<close>. On a system other than Windows an absolute path is cleaned, and any
  other path is joined to the working directory; the call fails when the working directory
  cannot be determined. On Windows the full path of the name (of \<^verbatim>\<open>.\<close> for the empty
  name) is computed and cleaned. Neither looks at the file tree.
\<close>

definition Abs :: "host \<Rightarrow> string \<Rightarrow> string \<times> error option" where
  "Abs h path =
     (if GOOS h = ''windows'' then
        (case FullPath h (if path = [] then ''.'' else path) of
           (fullPath, Some err) \<Rightarrow> ([], Some err)
         | (fullPath, None) \<Rightarrow> (Clean h fullPath, None))
      else if IsAbs path then (Clean h path, None)
      else
        (case Getwd h of
           (wd, Some err) \<Rightarrow> ([], Some err)
         | (wd, None) \<Rightarrow> (Join h wd path, None)))"

text \<open>
  The loop of lines 135 to 142: the first path whose \<^verbatim>\<open>filepath.Abs\<close> fails ends the
  function with \<^verbatim>\<open>nil\<close> and the wrapped error.
\<close>

fun absPaths :: "host \<Rightarrow> VideoInfo list \<Rightarrow> string list \<Rightarrow> string list \<times> error option" where
  "absPaths h [] sortedPaths = (sortedPaths, None)"
| "absPaths h (v # videos) sortedPaths =
     (case Abs h (Path v) of
        (absPath, Some err) \<Rightarrow> ([], Some (AbsPathError (Path v) err))
      | (absPath, None) \<Rightarrow> absPaths h videos (sortedPaths @ [absPath]))"

text \<open>Lines 105 to 124: the walk of the directory, which fills \<^verbatim>\<open>videos\<close>.\<close>

definition scanVideos :: "host \<Rightarrow> string \<Rightarrow> error option \<times> VideoInfo list" where
  "scanVideos h dir = Walk h dir (walkFn h) []"

definition findAndSortVideos :: "host \<Rightarrow> string \<Rightarrow> string list \<times> error option" where
  "findAndSortVideos h dir =
     (case scanVideos h dir of
        (Some err, videos) \<Rightarrow> ([], Some err)
      | (None, videos) \<Rightarrow> absPaths h (sort_Slice h lessModTime videos) [])"

section \<open>\<^verbatim>\<open>createConcatListFile\<close>\<close>

text \<open>\<^verbatim>\<open>os.PathSeparator\<close>: the backslash on Windows, the slash elsewhere.\<close>

definition PathSeparator :: "host \<Rightarrow> char" where
  "PathSeparator h = (if GOOS h = ''windows'' then backslash else CHR ''/'')"

text \<open>
  The name \<^verbatim>\<open>os.CreateTemp("", "concat-list-*.txt")\<close> gives the new file: in the default
  temporary directory, the pattern with its \<^verbatim>\<open>*\<close> replaced by a random string. The
  directory and the name are put together with a path separator between them, unless the
  directory already ends with one.
\<close>

definition tempName :: "host \<Rightarrow> string \<Rightarrow> string" where
  "tempName h random =
     (let dir = TempDir h;
          prefix = (if dir \<noteq> [] \<and> IsPathSeparator h (last dir) then dir
                    else dir @ [PathSeparator h])
      in prefix @ ''concat-list-'' @ random @ ''.txt'')"

text \<open>
  The loop of lines 156 to 164. \<open>k\<close> counts the calls of \<^verbatim>\<open>WriteString\<close> and \<open>accepted\<close> is
  the text handed to the writer so far. The result is the text handed to the writer, the
  line of a failing call included, and the error that ended the loop, if any.
\<close>

fun writeLines :: "host \<Rightarrow> nat \<Rightarrow> string list \<Rightarrow> string \<Rightarrow> string \<times> error option" where
  "writeLines h k [] accepted = (accepted, None)"
| "writeLines h k (file # files) accepted =
     (let escapedPath = ReplaceAll file quote [quote, backslash, quote, quote] in
      case writeString h k of
        Some err \<Rightarrow> (accepted @ Sprintf_file escapedPath, Some err)
      | None \<Rightarrow> writeLines h (Suc k) files (accepted @ Sprintf_file escapedPath))"

text \<open>
  \<^verbatim>\<open>createConcatListFile\<close>, lines 148 to 167: the files afterwards, the returned string and
  the returned error. The file is created empty. When a write fails, the function returns
  the empty string and the error, and the file keeps the part that reached it of the text
  handed to the writer, which may include bytes of the line whose write failed.
  The result of \<^verbatim>\<open>writer.Flush()\<close> at line 165 is not read: the function returns the
  file's name and no error whether or not the flush succeeded. The deferred
  \<^verbatim>\<open>tempFile.Close()\<close> leaves name and content as they are.
\<close>

definition createConcatListFile ::
  "host \<Rightarrow> string list \<Rightarrow> files \<Rightarrow> files \<times> string \<times> error option" where
  "createConcatListFile h paths fs =
     (case createTemp h of
        Inl err \<Rightarrow> (fs, [], Some err)
      | Inr random \<Rightarrow>
          (let name = tempName h random;
               fs1 = fs(name \<mapsto> [])
           in case writeLines h 0 paths [] of
                (text, Some err) \<Rightarrow> (fs1(name \<mapsto> take (persisted h) text), [], Some err)
              | (text, None) \<Rightarrow>
                  (case flush h of
                     Some err \<Rightarrow> (fs1(name \<mapsto> take (persisted h) text), name, None)
                   | None \<Rightarrow> (fs1(name \<mapsto> text), name, None))))"

section \<open>Encoder\<close>

text \<open>\<^verbatim>\<open>getDefaultEncoder\<close>, lines 170 to 181: a switch on \<^verbatim>\<open>runtime.GOOS\<close>.\<close>

definition getDefaultEncoder :: "host \<Rightarrow> string" where
  "getDefaultEncoder h =
     (if GOOS h = ''windows'' then ''hevc_nvenc''
      else if GOOS h = ''darwin'' then ''hevc_videotoolbox''
      else ''libx265'')"

text \<open>Lines 64 to 67.\<close>

definition chooseEncoder :: "host \<Rightarrow> string \<Rightarrow> string" where
  "chooseEncoder h encoder = (if encoder = [] then getDefaultEncoder h else encoder)"

section \<open>\<^verbatim>\<open>main\<close>\<close>

text \<open>
  The command line: for each flag, the value given or \<^term>\<open>None\<close> when the flag is absent.
  \<^verbatim>\<open>flag.String\<close> and \<^verbatim>\<open>flag.Int\<close> yield the value given, or the default of their
  second argument. A command line that \<^verbatim>\<open>flag.Parse\<close> rejects ends the process at line 30
  and is not a value of this type.
\<close>

record cmdline =
  arg_dir :: "string option"
  arg_output :: "string option"
  arg_resolution :: "string option"
  arg_framerate :: "int option"
  arg_encoder :: "string option"

definition flag_value :: "'a option \<Rightarrow> 'a \<Rightarrow> 'a" where
  "flag_value given dflt = (case given of None \<Rightarrow> dflt | Some v \<Rightarrow> v)"

text \<open>\<^verbatim>\<open>%d\<close> of \<^verbatim>\<open>fmt.Sprintf\<close>: decimal digits, with a minus sign for a negative number.\<close>

fun digits :: "nat \<Rightarrow> string" where
  "digits n = (if n < 10 then [char_of (48 + n)] else digits (n div 10) @ [char_of (48 + n mod 10)])"

definition Sprintf_d :: "int \<Rightarrow> string" where
  "Sprintf_d i = (if i < 0 then CHR ''-'' # digits (nat (- i)) else digits (nat i))"

text \<open>The words of the command built at lines 72 to 83, the program name first.\<close>

definition ffmpegCommand :: "string \<Rightarrow> string \<Rightarrow> int \<Rightarrow> string \<Rightarrow> string \<Rightarrow> string list" where
  "ffmpegCommand listFilePath resolution framerate chosenEncoder outputFile =
     [''ffmpeg'',
      ''-f'', ''concat'',
      ''-safe'', ''0'',
      ''-i'', listFilePath,
      ''-vf'', ''scale='' @ resolution @ '',fps='' @ Sprintf_d framerate,
      ''-c:v'', chosenEncoder,
      ''-c:a'', ''aac'',
      ''-b:a'', ''192k'',
      ''-y'',
      outputFile]"

text \<open>\<^verbatim>\<open>isFFmpegAvailable\<close>, lines 98 to 101.\<close>

definition isFFmpegAvailable :: "host \<Rightarrow> bool" where
  "isFFmpegAvailable h = lookPath h ''ffmpeg''"

text \<open>\<^verbatim>\<open>os.Remove\<close>: the named file is gone afterwards. No file has the empty name.\<close>

definition os_Remove :: "string \<Rightarrow> files \<Rightarrow> files" where
  "os_Remove name fs = (if name = [] then fs else fs(name := None))"

text \<open>What a run does to its environment, in order.\<close>

datatype event =
  PrintUsage
| LookPath string
| Scan string
| CreateList
| RunCommand "string list"
| Remove string

record outcome =
  exit_code :: nat
  trace :: "event list"
  files_after :: files

text \<open>
  \<^verbatim>\<open>main\<close>, lines 23 to 95, from the host, the command line and the files present at the
  start. \<^verbatim>\<open>log.Fatal\<close> and \<^verbatim>\<open>log.Fatalf\<close> print and call \<^verbatim>\<open>os.Exit(1)\<close>, which ends
  the process at once: a function deferred earlier does not run. The \<^verbatim>\<open>os.Remove\<close>
  deferred at line 61 runs when \<^verbatim>\<open>main\<close> returns, that is after line 94 only.
\<close>

definition main :: "host \<Rightarrow> cmdline \<Rightarrow> files \<Rightarrow> outcome" where
  "main h args fs =
     (let inputDir = flag_value (arg_dir args) [];
          outputFile = flag_value (arg_output args) [];
          resolution = flag_value (arg_resolution args) ''1920x1080'';
          framerate = flag_value (arg_framerate args) 60;
          encoder = flag_value (arg_encoder args) []
      in
      if inputDir = [] \<or> outputFile = [] then
        \<lparr>exit_code = 1, trace = [PrintUsage], files_after = fs\<rparr>
      else if \<not> isFFmpegAvailable h then
        \<lparr>exit_code = 1, trace = [LookPath ''ffmpeg''], files_after = fs\<rparr>
      else
        (case findAndSortVideos h inputDir of
           (videoFiles, Some err) \<Rightarrow>
             \<lparr>exit_code = 1, trace = [LookPath ''ffmpeg'', Scan inputDir], files_after = fs\<rparr>
         | (videoFiles, None) \<Rightarrow>
             if length videoFiles = 0 then
               \<lparr>exit_code = 1, trace = [LookPath ''ffmpeg'', Scan inputDir], files_after = fs\<rparr>
             else
               (case createConcatListFile h videoFiles fs of
                  (fs1, listFilePath, Some err) \<Rightarrow>
                    \<lparr>exit_code = 1,
                     trace = [LookPath ''ffmpeg'', Scan inputDir, CreateList],
                     files_after = fs1\<rparr>
                | (fs1, listFilePath, None) \<Rightarrow>
                    (let chosenEncoder = chooseEncoder h encoder;
                         cmd = ffmpegCommand listFilePath resolution framerate
                                 chosenEncoder outputFile
                     in case run h cmd of
                          Some err \<Rightarrow>
                            \<lparr>exit_code = 1,
                             trace = [LookPath ''ffmpeg'', Scan inputDir, CreateList,
                                      RunCommand cmd],
                             files_after = fs1\<rparr>
                        | None \<Rightarrow>
                            \<lparr>exit_code = 0,
                             trace = [LookPath ''ffmpeg'', Scan inputDir, CreateList,
                                      RunCommand cmd, Remove listFilePath],
                             files_after = os_Remove listFilePath fs1\<rparr>))))"

section \<open>What \<^verbatim>\<open>sort.Slice\<close> promises\<close>

text \<open>
  The documentation of \<^verbatim>\<open>sort.Slice\<close>: the slice is sorted by the less function, and the
  sort is not guaranteed to be stable, so equal elements may be reversed from their original
  order. For the less function of line 132 that is: the result is a permutation of the
  slice in which no element is followed by one that is less.
\<close>

definition sort_Slice_contract :: "host \<Rightarrow> bool" where
  "sort_Slice_contract h \<longleftrightarrow>
     (\<forall>xs. mset (sort_Slice h lessModTime xs) = mset xs
         \<and> sorted_wrt (\<lambda>a b. \<not> lessModTime b a) (sort_Slice h lessModTime xs))"

text \<open>
  Two functions that keep this promise. Insertion sort keeps equal elements in their
  order.
\<close>

fun insertLess :: "('a \<Rightarrow> 'a \<Rightarrow> bool) \<Rightarrow> 'a \<Rightarrow> 'a list \<Rightarrow> 'a list" where
  "insertLess lt x [] = [x]"
| "insertLess lt x (y # ys) = (if lt y x then y # insertLess lt x ys else x # y # ys)"

fun insertionSort :: "('a \<Rightarrow> 'a \<Rightarrow> bool) \<Rightarrow> 'a list \<Rightarrow> 'a list" where
  "insertionSort lt [] = []"
| "insertionSort lt (x # xs) = insertLess lt x (insertionSort lt xs)"

text \<open>
  One pass that compares each element from the seventh on with the one six places before
  it, and swaps the two when the later one is less, followed by insertion sort: this is how
  the \<^verbatim>\<open>sort\<close> package of the Go releases before 1.19 sorts a slice of at most twelve
  elements. The pass can carry an element over equal ones.
\<close>

definition gapPass :: "('a \<Rightarrow> 'a \<Rightarrow> bool) \<Rightarrow> 'a list \<Rightarrow> 'a list" where
  "gapPass lt xs =
     fold (\<lambda>i ys. if lt (ys ! i) (ys ! (i - 6)) then ys[i := ys ! (i - 6), i - 6 := ys ! i] else ys)
       [6..<length xs] xs"

definition gapSort :: "('a \<Rightarrow> 'a \<Rightarrow> bool) \<Rightarrow> 'a list \<Rightarrow> 'a list" where
  "gapSort lt xs = insertionSort lt (gapPass lt xs)"

section \<open>Reading a manifest back\<close>

text \<open>
  Modelled from the spec: the reader of the manifest belongs to the external tool, whose
  code is not part of the repository. The spec fixes the format as one
  \<^verbatim>\<open>file '<escaped-path>'\<close> directive per line, read by the \<^verbatim>\<open>'...'\<close> quoting rule, and
  the escape as the shell idiom: between quotes every byte stands for itself up to the
  closing quote; outside quotes a backslash makes the next byte stand for itself, and white
  space ends the word. \<open>token_out\<close> reads outside quotes and \<open>token_in\<close> between them;
  each returns the word and the text left.
\<close>

definition whitespace :: "char \<Rightarrow> bool" where
  "whitespace c \<longleftrightarrow> c = CHR '' '' \<or> c = newline \<or> c = CHR 0x09 \<or> c = CHR 0x0D"

fun token_out :: "string \<Rightarrow> string \<times> string"
  and token_in :: "string \<Rightarrow> string \<times> string" where
  "token_out [] = ([], [])"
| "token_out (c # cs) =
     (if c = backslash then
        (case cs of
           [] \<Rightarrow> ([c], [])
         | d # ds \<Rightarrow> (case token_out ds of (t, r) \<Rightarrow> (d # t, r)))
      else if c = quote then token_in cs
      else if whitespace c then ([], c # cs)
      else (case token_out cs of (t, r) \<Rightarrow> (c # t, r)))"
| "token_in [] = ([], [])"
| "token_in (c # cs) =
     (if c = quote then token_out cs
      else (case token_in cs of (t, r) \<Rightarrow> (c # t, r)))"

fun strip_prefix :: "string \<Rightarrow> string \<Rightarrow> string option" where
  "strip_prefix [] s = Some s"
| "strip_prefix (p # ps) [] = None"
| "strip_prefix (p # ps) (c # cs) = (if p = c then strip_prefix ps cs else None)"

text \<open>A directive is the keyword \<^verbatim>\<open>file\<close>, a space and a word.\<close>

definition parse_directive :: "string \<Rightarrow> (string \<times> string) option" where
  "parse_directive s =
     (case strip_prefix ''file '' s of None \<Rightarrow> None | Some r \<Rightarrow> Some (token_out r))"

lemma strip_prefix_Some: "strip_prefix p s = Some r \<Longrightarrow> s = p @ r"
  by (induction p s rule: strip_prefix.induct) (simp_all split: if_splits)

lemma token_rest_length:
  "length (snd (token_out s)) \<le> length s" "length (snd (token_in s)) \<le> length s"
proof (induction s rule: token_out_token_in.induct)
  case 1
  show ?case by simp
next
  case (2 c cs)
  show ?case
  proof (cases cs)
    case Nil
    with 2 show ?thesis by (simp split: prod.splits)
  next
    case (Cons d ds)
    with 2 show ?thesis by (simp split: prod.splits) fastforce
  qed
next
  case 3
  show ?case by simp
next
  case (4 c cs)
  then show ?case by (simp split: prod.splits) fastforce
qed

text \<open>A manifest is a sequence of directives separated by white space.\<close>

function parse_manifest :: "string \<Rightarrow> string list option" where
  "parse_manifest s =
     (if s = [] then Some []
      else if whitespace (hd s) then parse_manifest (tl s)
      else (case parse_directive s of
              None \<Rightarrow> None
            | Some (p, rest) \<Rightarrow>
                (case parse_manifest rest of None \<Rightarrow> None | Some ps \<Rightarrow> Some (p # ps))))"
  by pat_completeness auto
termination
proof (relation "measure length")
  show "wf (measure length)" by simp
next
  fix s :: string
  assume "s \<noteq> []" "whitespace (hd s)"
  then show "(tl s, s) \<in> measure length" by (cases s) simp_all
next
  fix s x2 x y
  assume a: "s \<noteq> []" "parse_directive s = Some x2" "(x, y) = x2"
  then obtain r where r: "strip_prefix ''file '' s = Some r" and y: "y = snd (token_out r)"
    by (auto simp: parse_directive_def split: option.splits)
  from strip_prefix_Some[OF r] have "length s = 5 + length r" by simp
  with y token_rest_length(1)[of r] show "(y, s) \<in> measure length"
    by simp
qed

declare parse_manifest.simps [simp del]

section \<open>Reference definitions\<close>

text \<open>
  The entries of a file tree that are not directories, at any depth, each with the path the
  walk gives it and its modification time, in the order of the walk.
\<close>

fun tree_files :: "host \<Rightarrow> string \<Rightarrow> node \<Rightarrow> (string \<times> int) list"
  and names_files :: "host \<Rightarrow> string \<Rightarrow> (string \<times> node) list \<Rightarrow> (string \<times> int) list" where
  "tree_files h path (File t) = [(path, t)]"
| "tree_files h path (Dir t entries) = names_files h path entries"
| "tree_files h path (Unreadable t e) = []"
| "tree_files h path (NoStat e) = []"
| "names_files h path [] = []"
| "names_files h path ((name, n) # entries) =
     tree_files h (Join h path name) n @ names_files h path entries"

text \<open>A tree is readable when every \<^verbatim>\<open>lstat\<close> and every reading of a directory in it succeeds.\<close>

fun readable :: "node \<Rightarrow> bool"
  and readable_names :: "(string \<times> node) list \<Rightarrow> bool" where
  "readable (File t) = True"
| "readable (Dir t entries) = readable_names entries"
| "readable (Unreadable t e) = False"
| "readable (NoStat e) = False"
| "readable_names [] = True"
| "readable_names ((name, n) # entries) = (readable n \<and> readable_names entries)"

text \<open>
  A path has a supported extension when its extension, in lower case, is one of the four
  container formats.
\<close>

definition isVideoPath :: "host \<Rightarrow> string \<Rightarrow> bool" where
  "isVideoPath h path \<longleftrightarrow> ToLower h (Ext h path) \<in> {''.mp4'', ''.mov'', ''.mkv'', ''.avi''}"

text \<open>The entries with a supported extension, as \<^typ>\<open>VideoInfo\<close> values, in their order.\<close>

definition videosOf :: "host \<Rightarrow> (string \<times> int) list \<Rightarrow> VideoInfo list" where
  "videosOf h entries =
     map (\<lambda>(p, t). \<lparr>Path = p, ModTime = t\<rparr>) (filter (\<lambda>(p, t). isVideoPath h p) entries)"

text \<open>
  Modelled from the spec: the directive the spec prescribes for a path, \<^verbatim>\<open>file '...'\<close> with
  every single quote of the path written as quote, backslash, quote, quote, and a newline
  after it.
\<close>

definition escaped_line :: "string \<Rightarrow> string" where
  "escaped_line path =
     ''file '' @ [quote]
       @ concat (map (\<lambda>c. if c = quote then [quote, backslash, quote, quote] else [c]) path)
       @ [quote, newline]"

text \<open>
  Modelled from the spec: a reader that takes a manifest line by line reads, first, the text
  before the first newline.
\<close>

definition first_line :: "string \<Rightarrow> string" where
  "first_line s = takeWhile (\<lambda>c. c \<noteq> newline) s"

text \<open>
  What the documentation of \<^verbatim>\<open>filepath.Clean\<close>, \<^verbatim>\<open>filepath.Join\<close> and \<^verbatim>\<open>os.Getwd\<close>
  promises about absolute paths: cleaning an absolute path, and joining a name to an
  absolute directory, give an absolute path, and the working directory is an absolute path.
\<close>

definition path_contract :: "host \<Rightarrow> bool" where
  "path_contract h \<longleftrightarrow>
     (\<forall>p. IsAbs p \<longrightarrow> IsAbs (Clean h p))
     \<and> (\<forall>d n. IsAbs d \<longrightarrow> IsAbs (Join h d n))
     \<and> IsAbs (fst (Getwd h))"

text \<open>The number of lines of a file: the number of its newline bytes.\<close>

definition manifest_lines :: "files \<Rightarrow> string \<Rightarrow> nat option" where
  "manifest_lines fs name = map_option (\<lambda>content. count_list content newline) (fs name)"

section \<open>Example hosts\<close>

text \<open>
  A Linux host with \<^verbatim>\<open>ffmpeg\<close> installed. Under \<^verbatim>\<open>videos\<close> there are two videos with the
  same modification time (\<^verbatim>\<open>a.mov\<close> and \<^verbatim>\<open>sub/d.mkv\<close>), a later one with an upper-case
  extension, a text file and a directory named like a video. Under \<^verbatim>\<open>docs\<close> there is no
  video. Every call succeeds.
\<close>

definition demo_tree :: node where
  "demo_tree = Dir 0 [(''a.mov'', File 1), (''b.MP4'', File 2), (''c.txt'', File 3),
                      (''sub'', Dir 5 [(''d.mkv'', File 1), (''e.avi'', Dir 7 [])])]"

definition docs_tree :: node where
  "docs_tree = Dir 0 [(''clips.mp4'', Dir 9 []), (''notes.txt'', File 4)]"

definition demo_host :: host where
  "demo_host =
     \<lparr>GOOS = ''linux'',
      lookPath = (\<lambda>name. name = ''ffmpeg''),
      lstat = (\<lambda>root. if root = ''videos'' then demo_tree
                        else if root = ''docs'' then docs_tree
                        else NoStat (OSError ''no such file or directory'')),
      Join = (\<lambda>dir name. dir @ ''/'' @ name),
      unicodeToLower = (\<lambda>s. s),
      sort_Slice = insertionSort,
      Clean = (\<lambda>p. p),
      Getwd = (''/home/user'', None),
      FullPath = (\<lambda>p. (''C:'' @ [backslash] @ p, None)),
      Stat = (\<lambda>p. None),
      TempDir = ''/tmp'',
      createTemp = Inr ''123'',
      writeString = (\<lambda>k. None),
      flush = None,
      persisted = 0,
      run = (\<lambda>cmd. None)\<rparr>"

definition demo_args :: cmdline where
  "demo_args = \<lparr>arg_dir = Some ''videos'', arg_output = Some ''out.mp4'',
                 arg_resolution = None, arg_framerate = None, arg_encoder = None\<rparr>"

text \<open>What the scan of \<^verbatim>\<open>videos\<close> finds, and the command the run builds.\<close>

definition demo_videos :: "VideoInfo list" where
  "demo_videos = [\<lparr>Path = ''videos/a.mov'', ModTime = 1\<rparr>,
                  \<lparr>Path = ''videos/b.MP4'', ModTime = 2\<rparr>,
                  \<lparr>Path = ''videos/sub/d.mkv'', ModTime = 1\<rparr>]"

definition demo_command :: "string list" where
  "demo_command =
     [''ffmpeg'', ''-f'', ''concat'', ''-safe'', ''0'', ''-i'', ''/tmp/concat-list-123.txt'',
      ''-vf'', ''scale=1920x1080,fps=60'', ''-c:v'', ''libx265'', ''-c:a'', ''aac'',
      ''-b:a'', ''192k'', ''-y'', ''out.mp4'']"

text \<open>
  A host whose \<^verbatim>\<open>sort.Slice\<close> is the second function above, with a directory of seven
  videos: the first is the newest, the other six have the same modification time.
\<close>

definition ties_tree :: node where
  "ties_tree = Dir 0 [(''a.mp4'', File 2), (''b.mp4'', File 1), (''c.mp4'', File 1),
                      (''d.mp4'', File 1), (''e.mp4'', File 1), (''f.mp4'', File 1),
                      (''g.mp4'', File 1)]"

definition ties_videos :: "VideoInfo list" where
  "ties_videos = [\<lparr>Path = ''ties/a.mp4'', ModTime = 2\<rparr>, \<lparr>Path = ''ties/b.mp4'', ModTime = 1\<rparr>,
                  \<lparr>Path = ''ties/c.mp4'', ModTime = 1\<rparr>, \<lparr>Path = ''ties/d.mp4'', ModTime = 1\<rparr>,
                  \<lparr>Path = ''ties/e.mp4'', ModTime = 1\<rparr>, \<lparr>Path = ''ties/f.mp4'', ModTime = 1\<rparr>,
                  \<lparr>Path = ''ties/g.mp4'', ModTime = 1\<rparr>]"

definition gap_host :: host where
  "gap_host = demo_host\<lparr>sort_Slice := gapSort, lstat := \<lambda>root. ties_tree\<rparr>"

text \<open>The first host, where the working directory cannot be determined.\<close>

definition no_cwd_host :: host where
  "no_cwd_host = demo_host\<lparr>Getwd := ([], Some (OSError ''getwd: no such file or directory''))\<rparr>"

text \<open>
  The first host, where \<^verbatim>\<open>videos/a.mov\<close> is a symbolic link whose target is missing:
  \<^verbatim>\<open>lstat\<close> finds the link, \<^verbatim>\<open>os.Stat\<close> fails.
\<close>

definition broken_link_host :: host where
  "broken_link_host =
     demo_host\<lparr>Stat := \<lambda>p. if p = ''videos/a.mov''
                               then Some (OSError ''no such file or directory'') else None\<rparr>"

text \<open>The first host, where the second call of \<^verbatim>\<open>WriteString\<close> returns an error.\<close>

definition full_disk_host :: host where
  "full_disk_host =
     demo_host\<lparr>writeString := \<lambda>k. if k = 1 then Some (OSError ''no space left on device'') else None\<rparr>"

text \<open>The first host, where \<^verbatim>\<open>ffmpeg\<close> exits with a status other than 0.\<close>

definition failing_host :: host where
  "failing_host = demo_host\<lparr>run := \<lambda>cmd. Some (OSError ''exit status 1'')\<rparr>"

text \<open>The first host without \<^verbatim>\<open>ffmpeg\<close>.\<close>

definition no_tool_host :: host where
  "no_tool_host = demo_host\<lparr>lookPath := \<lambda>name. False\<rparr>"

section \<open>The text of the manifest\<close>

lemma ReplaceAll_concat:
  "ReplaceAll s old new = concat (map (\<lambda>c. if c = old then new else [c]) s)"
  by (induction s) simp_all

lemma quote_neq_backslash: "quote \<noteq> backslash" "backslash \<noteq> quote"
  by (simp_all add: quote_def backslash_def)

lemma token_in_escaped:
  "token_in (ReplaceAll p quote [quote, backslash, quote, quote] @ quote # rest) =
     (case token_out rest of (t, r) \<Rightarrow> (p @ t, r))"
proof (induction p)
  case Nil
  show ?case by (simp split: prod.splits)
next
  case (Cons c p)
  show ?case
  proof (cases "c = quote")
    case True
    then show ?thesis using Cons quote_neq_backslash by (simp split: prod.splits)
  next
    case False
    then show ?thesis using Cons by (simp split: prod.splits)
  qed
qed

lemma whitespace_newline: "whitespace newline"
  by (simp add: whitespace_def)

lemma newline_neq: "newline \<noteq> quote" "newline \<noteq> backslash"
  by (simp_all add: newline_def quote_def backslash_def)

lemma file_not_whitespace: "\<not> whitespace (CHR ''f'')"
  by (simp add: whitespace_def newline_def)

lemma strip_prefix_file: "strip_prefix ''file '' (''file '' @ r) = Some r"
  by simp

lemma token_out_newline: "token_out (newline # rest) = ([], newline # rest)"
  using newline_neq whitespace_newline by simp

lemma parse_directive_directive:
  "parse_directive (directive p @ rest) = Some (p, newline # rest)"
proof -
  have "directive p @ rest =
      ''file '' @ quote # (ReplaceAll p quote [quote, backslash, quote, quote] @ quote # newline # rest)"
    by (simp add: directive_def Sprintf_file_def)
  then have "parse_directive (directive p @ rest) =
      Some (token_in (ReplaceAll p quote [quote, backslash, quote, quote] @ quote # newline # rest))"
    using quote_neq_backslash by (simp add: parse_directive_def)
  also have "token_in (ReplaceAll p quote [quote, backslash, quote, quote] @ quote # newline # rest) =
      (p, newline # rest)"
    by (simp only: token_in_escaped token_out_newline prod.case append_Nil2)
  finally show ?thesis .
qed

lemma parse_manifest_step:
  "s \<noteq> [] \<Longrightarrow> \<not> whitespace (hd s) \<Longrightarrow> parse_directive s = Some (p, rest) \<Longrightarrow>
   parse_manifest s = (case parse_manifest rest of None \<Rightarrow> None | Some ps \<Rightarrow> Some (p # ps))"
  by (subst parse_manifest.simps) simp

lemma parse_manifest_skip: "whitespace c \<Longrightarrow> parse_manifest (c # s) = parse_manifest s"
  by (subst parse_manifest.simps) simp

lemma directive_hd: "hd (directive p @ rest) = CHR ''f''" "directive p @ rest \<noteq> []"
  by (simp_all add: directive_def Sprintf_file_def)

lemma parse_manifest_directives:
  "parse_manifest (concat (map directive ps)) = Some ps"
proof (induction ps)
  case Nil
  show ?case by (subst parse_manifest.simps) simp
next
  case (Cons p ps)
  let ?rest = "concat (map directive ps)"
  have nw: "\<not> whitespace (hd (directive p @ ?rest))"
    by (simp only: directive_hd file_not_whitespace not_False_eq_True)
  have "parse_manifest (directive p @ ?rest) =
      (case parse_manifest (newline # ?rest) of None \<Rightarrow> None | Some qs \<Rightarrow> Some (p # qs))"
    by (rule parse_manifest_step[OF directive_hd(2) nw parse_directive_directive])
  also have "parse_manifest (newline # ?rest) = parse_manifest ?rest"
    by (rule parse_manifest_skip[OF whitespace_newline])
  finally show ?case using Cons by simp
qed

lemma writeLines_ok:
  "(\<forall>i < length paths. writeString h (k + i) = None) \<Longrightarrow>
   writeLines h k paths buf = (buf @ concat (map directive paths), None)"
proof (induction paths arbitrary: k buf)
  case Nil
  show ?case by simp
next
  case (Cons p ps)
  from Cons.prems have w0: "writeString h k = None" by force
  have "\<forall>i < length ps. writeString h (Suc k + i) = None"
  proof (intro allI impI)
    fix i assume "i < length ps"
    then have "Suc i < length (p # ps)" by simp
    with Cons.prems have "writeString h (k + Suc i) = None" by blast
    then show "writeString h (Suc k + i) = None" by simp
  qed
  from Cons.IH[OF this] w0 show ?case by (simp add: directive_def)
qed

lemma writeLines_fail:
  "i < length paths \<Longrightarrow> writeString h (k + i) = Some e \<Longrightarrow>
   (\<forall>j < i. writeString h (k + j) = None) \<Longrightarrow>
   writeLines h k paths buf = (buf @ concat (map directive (take (Suc i) paths)), Some e)"
proof (induction paths arbitrary: k buf i)
  case Nil
  then show ?case by simp
next
  case (Cons p ps)
  show ?case
  proof (cases i)
    case 0
    with Cons.prems show ?thesis by (simp add: directive_def)
  next
    case (Suc i')
    with Cons.prems have w0: "writeString h k = None" by force
    have a: "i' < length ps" using Cons.prems Suc by simp
    have b: "writeString h (Suc k + i') = Some e" using Cons.prems Suc by simp
    have c: "\<forall>j < i'. writeString h (Suc k + j) = None"
    proof (intro allI impI)
      fix j assume "j < i'"
      then have "Suc j < i" using Suc by simp
      with Cons.prems have "writeString h (k + Suc j) = None" by blast
      then show "writeString h (Suc k + j) = None" by simp
    qed
    from Cons.IH[OF a b c] w0 Suc show ?thesis by (simp add: directive_def)
  qed
qed

lemma count_newline_directive:
  "newline \<notin> set p \<Longrightarrow> count_list (directive p) newline = 1"
  by (induction p) (auto simp: directive_def Sprintf_file_def newline_def quote_def backslash_def)


lemma count_newline_directives:
  "(\<forall>p \<in> set ps. newline \<notin> set p) \<Longrightarrow>
   count_list (concat (map directive ps)) newline = length ps"
  by (induction ps) (simp_all add: count_newline_directive)

lemma writeLines_all_ok:
  "(\<forall>k < length paths. writeString h k = None) \<Longrightarrow>
   writeLines h 0 paths [] = (concat (map directive paths), None)"
  using writeLines_ok[of paths h 0 "[]"] by simp

lemma writeLines_first_failure:
  "i < length paths \<Longrightarrow> writeString h i = Some e \<Longrightarrow> (\<forall>j < i. writeString h j = None) \<Longrightarrow>
   writeLines h 0 paths [] = (concat (map directive (take (Suc i) paths)), Some e)"
  using writeLines_fail[of i paths h 0 e "[]"] by simp

lemma directive_escaped_line: "directive p = escaped_line p"
  by (simp add: directive_def escaped_line_def Sprintf_file_def ReplaceAll_concat)

lemma newline_not_in_escape:
  "newline \<notin> set p \<Longrightarrow>
   newline \<notin> set (ReplaceAll p quote [quote, backslash, quote, quote])"
  by (induction p) (auto simp: newline_def quote_def backslash_def)

lemma takeWhile_upto: "x \<notin> set xs \<Longrightarrow> takeWhile (\<lambda>c. c \<noteq> x) (xs @ x # ys) = xs"
  by (induction xs) auto

lemma first_line_directive:
  assumes "newline \<notin> set p"
  shows "first_line (directive p) =
           ''file '' @ quote # ReplaceAll p quote [quote, backslash, quote, quote] @ [quote]"
proof -
  let ?body = "''file '' @ quote # ReplaceAll p quote [quote, backslash, quote, quote] @ [quote]"
  have d: "directive p = ?body @ [newline]"
    by (simp add: directive_def Sprintf_file_def)
  have nb: "newline \<notin> set ?body"
    using newline_not_in_escape[OF assms] by (auto simp: newline_def quote_def)
  have "first_line (?body @ [newline]) = ?body"
    unfolding first_line_def by (rule takeWhile_upto[OF nb])
  then show ?thesis unfolding d .
qed

lemma parse_first_line:
  assumes "newline \<notin> set p"
  shows "parse_directive (first_line (directive p)) = Some (p, [])"
proof -
  have "parse_directive (first_line (directive p)) =
      Some (token_in (ReplaceAll p quote [quote, backslash, quote, quote] @ quote # []))"
    unfolding first_line_directive[OF assms]
    using quote_neq_backslash by (simp add: parse_directive_def)
  also have "token_in (ReplaceAll p quote [quote, backslash, quote, quote] @ quote # []) = (p, [])"
    by (simp only: token_in_escaped token_out.simps prod.case append_Nil2)
  finally show ?thesis .
qed

lemma writeLines_step:
  "writeString h k = None \<Longrightarrow>
   writeLines h k (p # ps) buf = writeLines h (Suc k) ps (buf @ directive p)"
  by (simp add: directive_def)

section \<open>The walk\<close>

lemma supported_iff: "supported ext \<longleftrightarrow> ext \<in> {''.mp4'', ''.mov'', ''.mkv'', ''.avi''}"
  by (auto simp: supported_def supportedExtensions_def split: if_splits)

lemma walkFn_file:
  "walkFn h path (Some (FileInfo False t)) None vs = (None, vs @ videosOf h [(path, t)])"
  by (simp add: walkFn_def videosOf_def isVideoPath_def supported_iff Let_def del: insert_iff)

lemma walkFn_dir: "walkFn h path (Some (FileInfo True t)) None vs = (None, vs)"
  by (simp add: walkFn_def)

lemma walkFn_error: "walkFn h path info (Some e) vs = (Some e, vs)"
  by (simp add: walkFn_def)

lemma videosOf_append: "videosOf h (xs @ ys) = videosOf h xs @ videosOf h ys"
  by (simp add: videosOf_def)

lemma walk_readable:
  "readable n \<Longrightarrow> walk h (walkFn h) path n vs = (None, vs @ videosOf h (tree_files h path n))"
  "readable_names entries \<Longrightarrow>
     walk_names h (walkFn h) path entries vs = (None, vs @ videosOf h (names_files h path entries))"
proof (induction h path n and h path entries arbitrary: vs and vs rule: tree_files_names_files.induct)
  case (1 h path t)
  show ?case by (simp add: walkFn_file)
next
  case (2 h path t entries)
  then show ?case by (simp add: walkFn_dir)
next
  case (3 h path t e)
  then show ?case by simp
next
  case (4 h path e)
  then show ?case by simp
next
  case (5 h path)
  show ?case by (simp add: videosOf_def)
next
  case (6 h path name n entries)
  then show ?case by (simp add: videosOf_append)
qed

lemma walk_unreadable:
  "\<not> readable n \<Longrightarrow> \<exists>e vs'. walk h (walkFn h) path n vs = (Some e, vs')"
  "\<not> readable_names entries \<Longrightarrow> \<exists>e vs'. walk_names h (walkFn h) path entries vs = (Some e, vs')"
proof (induction h path n and h path entries arbitrary: vs and vs rule: tree_files_names_files.induct)
  case (1 h path t)
  then show ?case by simp
next
  case (2 h path t entries)
  then show ?case by (simp add: walkFn_dir)
next
  case (3 h path t e)
  show ?case by (simp add: walkFn_error)
next
  case (4 h path e)
  show ?case by (simp add: walkFn_error)
next
  case (5 h path)
  then show ?case by simp
next
  case (6 h path name n entries)
  show ?case
  proof (cases "readable n")
    case True
    with 6 have "\<not> readable_names entries" by simp
    from "6.IH"(2)[OF this] True show ?thesis by (simp add: walk_readable(1))
  next
    case False
    from "6.IH"(1)[OF this, of vs] show ?thesis by auto
  qed
qed

lemma scanVideos_readable:
  "readable (lstat h dir) \<Longrightarrow>
   scanVideos h dir = (None, videosOf h (tree_files h dir (lstat h dir)))"
  by (simp add: scanVideos_def Walk_def walk_readable(1))

lemma scanVideos_unreadable:
  "\<not> readable (lstat h dir) \<Longrightarrow> \<exists>e. findAndSortVideos h dir = ([], Some e)"
  using walk_unreadable(1)[of "lstat h dir" h dir "[]"]
  by (auto simp: findAndSortVideos_def scanVideos_def Walk_def)

section \<open>Sorting and path resolution\<close>

lemma set_insertLess: "set (insertLess lt x ys) = insert x (set ys)"
  by (induction ys) auto

lemma mset_insertLess: "mset (insertLess lt x ys) = add_mset x (mset ys)"
  by (induction ys) simp_all

lemma mset_insertionSort: "mset (insertionSort lt xs) = mset xs"
  by (induction xs) (simp_all add: mset_insertLess)

lemma sorted_insertLess:
  "sorted_wrt (\<lambda>a b. \<not> lessModTime b a) ys \<Longrightarrow>
   sorted_wrt (\<lambda>a b. \<not> lessModTime b a) (insertLess lessModTime x ys)"
  by (induction ys) (auto simp: set_insertLess lessModTime_def)

lemma sorted_insertionSort:
  "sorted_wrt (\<lambda>a b. \<not> lessModTime b a) (insertionSort lessModTime xs)"
  by (induction xs) (simp_all add: sorted_insertLess)

lemma contract_insertionSort:
  "sort_Slice h = insertionSort \<Longrightarrow> sort_Slice_contract h"
  by (simp add: sort_Slice_contract_def mset_insertionSort sorted_insertionSort)

lemma contract_sorted:
  "sort_Slice_contract h \<Longrightarrow> sorted (map ModTime (sort_Slice h lessModTime xs))"
proof -
  assume "sort_Slice_contract h"
  then have "sorted_wrt (\<lambda>a b. \<not> lessModTime b a) (sort_Slice h lessModTime xs)"
    by (simp add: sort_Slice_contract_def)
  then have "sorted_wrt (\<lambda>a b. ModTime a \<le> ModTime b) (sort_Slice h lessModTime xs)"
    by (simp add: lessModTime_def not_less)
  then show ?thesis by (simp add: sorted_map)
qed

lemma contract_Nil: "sort_Slice_contract h \<Longrightarrow> sort_Slice h lessModTime [] = []"
proof -
  assume "sort_Slice_contract h"
  then have "mset (sort_Slice h lessModTime []) = mset []"
    unfolding sort_Slice_contract_def by blast
  then show ?thesis by simp
qed

lemma absPaths_ok:
  "(\<forall>v \<in> set vs. snd (Abs h (Path v)) = None) \<Longrightarrow>
   absPaths h vs acc = (acc @ map (\<lambda>v. fst (Abs h (Path v))) vs, None)"
  by (induction vs arbitrary: acc) (auto split: prod.splits option.splits)

lemma absPaths_find:
  "absPaths h vs acc =
     (case find (\<lambda>v. snd (Abs h (Path v)) \<noteq> None) vs of
        None \<Rightarrow> (acc @ map (\<lambda>v. fst (Abs h (Path v))) vs, None)
      | Some v \<Rightarrow> ([], Some (AbsPathError (Path v) (the (snd (Abs h (Path v)))))))"
  by (induction vs arbitrary: acc) (auto split: prod.splits option.splits)

lemma mset_gap_fold:
  "\<forall>i \<in> set is. i < length ys \<Longrightarrow>
   mset (fold (\<lambda>i ys. if lt (ys ! i) (ys ! (i - 6)) then ys[i := ys ! (i - 6), i - 6 := ys ! i] else ys)
           is ys) = mset ys"
proof (induction "is" arbitrary: ys)
  case Nil
  show ?case by simp
next
  case (Cons i "is")
  let ?ys' = "if lt (ys ! i) (ys ! (i - 6)) then ys[i := ys ! (i - 6), i - 6 := ys ! i] else ys"
  from Cons.prems have i: "i < length ys" by simp
  then have "i - 6 < length ys" by simp
  with i have m: "mset ?ys' = mset ys" by (simp add: mset_swap)
  have l: "length ?ys' = length ys" by simp
  from Cons.prems l have "\<forall>j \<in> set is. j < length ?ys'" by simp
  from Cons.IH[OF this] m show ?case by simp
qed

lemma mset_gapPass: "mset (gapPass lt xs) = mset xs"
  unfolding gapPass_def by (rule mset_gap_fold) simp

lemma contract_gapSort: "sort_Slice h = gapSort \<Longrightarrow> sort_Slice_contract h"
  by (simp add: sort_Slice_contract_def gapSort_def mset_insertionSort mset_gapPass
        sorted_insertionSort)

lemma Abs_fails_iff:
  "snd (Abs h p) \<noteq> None \<longleftrightarrow>
     (if GOOS h = ''windows'' then snd (FullPath h (if p = [] then ''.'' else p)) \<noteq> None
      else \<not> IsAbs p \<and> snd (Getwd h) \<noteq> None)"
  by (auto simp: Abs_def split: prod.splits option.splits)

lemma Abs_result:
  "GOOS h \<noteq> ''windows'' \<Longrightarrow> snd (Abs h p) = None \<Longrightarrow>
   fst (Abs h p) = (if IsAbs p then Clean h p else Join h (fst (Getwd h)) p)"
  by (auto simp: Abs_def split: prod.splits option.splits)

lemma Abs_ignores_files: "Abs (h\<lparr>lstat := tree, Stat := stat\<rparr>) p = Abs h p"
  by (simp add: Abs_def)

lemma absPaths_ignores_files:
  "absPaths (h\<lparr>lstat := tree, Stat := stat\<rparr>) vs acc = absPaths h vs acc"
  by (induction vs arbitrary: acc) (simp_all add: Abs_ignores_files)

lemma Abs_absolute:
  "GOOS h \<noteq> ''windows'' \<Longrightarrow> path_contract h \<Longrightarrow> snd (Abs h p) = None \<Longrightarrow>
   IsAbs (fst (Abs h p))"
  by (auto simp: Abs_def path_contract_def split: prod.splits option.splits)

lemma absPaths_absolute:
  "GOOS h \<noteq> ''windows'' \<Longrightarrow> path_contract h \<Longrightarrow> \<forall>q \<in> set acc. IsAbs q \<Longrightarrow>
   \<forall>q \<in> set (fst (absPaths h vs acc)). IsAbs q"
proof (induction vs arbitrary: acc)
  case Nil
  then show ?case by simp
next
  case (Cons v vs)
  show ?case
  proof (cases "snd (Abs h (Path v))")
    case None
    with Cons.prems have a: "IsAbs (fst (Abs h (Path v)))" by (simp add: Abs_absolute)
    obtain q where q: "Abs h (Path v) = (q, None)" using None by (cases "Abs h (Path v)") simp
    with a Cons.prems(3) have "\<forall>r \<in> set (acc @ [q]). IsAbs r" by simp
    from Cons.IH[OF Cons.prems(1,2) this] q show ?thesis by simp
  next
    case (Some e)
    then obtain q where "Abs h (Path v) = (q, Some e)" by (cases "Abs h (Path v)") simp
    then show ?thesis by simp
  qed
qed

section \<open>The example hosts at work\<close>

lemma demo_readable: "readable (lstat demo_host ''videos'')"
  by (simp add: demo_host_def demo_tree_def)

lemma demo_tree_files:
  "tree_files demo_host ''videos'' (lstat demo_host ''videos'') =
     [(''videos/a.mov'', 1), (''videos/b.MP4'', 2), (''videos/c.txt'', 3), (''videos/sub/d.mkv'', 1)]"
  by (simp add: demo_host_def demo_tree_def)

lemma demo_videosOf:
  "videosOf demo_host (tree_files demo_host ''videos'' (lstat demo_host ''videos'')) = demo_videos"
  unfolding demo_tree_files by code_simp

lemma demo_scan: "scanVideos demo_host ''videos'' = (None, demo_videos)"
  using scanVideos_readable[OF demo_readable] demo_videosOf by simp

lemma demo_contract: "sort_Slice_contract demo_host"
  by (rule contract_insertionSort) (simp add: demo_host_def)

lemma demo_abs: "\<forall>v \<in> set demo_videos. snd (Abs demo_host (Path v)) = None"
  by (simp add: demo_host_def demo_videos_def Abs_def IsAbs_def)

lemma no_cwd_scan: "scanVideos no_cwd_host ''videos'' = (None, demo_videos)"
  by code_simp

lemma demo_trace:
  "trace (main demo_host demo_args Map.empty) =
     [LookPath ''ffmpeg'', Scan ''videos'', CreateList, RunCommand demo_command,
      Remove ''/tmp/concat-list-123.txt'']"
  by code_simp

lemma chooseEncoder_nonempty: "chooseEncoder h encoder \<noteq> []"
  by (simp add: chooseEncoder_def getDefaultEncoder_def)

lemma main_RunCommand:
  "RunCommand cmd \<in> set (trace (main h args fs)) \<Longrightarrow>
   \<exists>listFilePath resolution framerate outputFile.
     cmd = ffmpegCommand listFilePath resolution framerate
             (chooseEncoder h (flag_value (arg_encoder args) [])) outputFile"
  by (auto simp: main_def Let_def split: if_splits prod.splits option.splits)

lemma gap_contract: "sort_Slice_contract gap_host"
  by (rule contract_gapSort) (simp add: gap_host_def)

section \<open>Properties of the program\<close>

text \<open>
  C1. The claim: once the manifest file has been created, it no longer exists after the
  run, on every exit path. The program does not do this when \<^verbatim>\<open>ffmpeg\<close> fails: on the host
  where \<^verbatim>\<open>cmd.Run\<close> returns an error, the run ends with status 1, the manifest is still
  there, and no removal took place.
\<close>

theorem manifest_left_after_tool_failure:
  "exit_code (main failing_host demo_args Map.empty) = 1
   \<and> files_after (main failing_host demo_args Map.empty) ''/tmp/concat-list-123.txt'' \<noteq> None
   \<and> Remove ''/tmp/concat-list-123.txt'' \<notin> set (trace (main failing_host demo_args Map.empty))"
  by code_simp

text \<open>
  C2, as amended. For every list of entries the scan returns, if \<^verbatim>\<open>sort.Slice\<close> keeps its
  promise and every path resolves, the result is the resolved paths of a permutation of the
  entries that ascends by modification time. Nothing is said about the order of entries
  with equal times.
\<close>

theorem sorter_ascending_permutation:
  assumes "scanVideos h dir = (None, videos)"
    and "sort_Slice_contract h"
    and "\<forall>v \<in> set videos. snd (Abs h (Path v)) = None"
  shows "\<exists>vs. mset vs = mset videos \<and> sorted (map ModTime vs)
           \<and> findAndSortVideos h dir = (map (\<lambda>v. fst (Abs h (Path v))) vs, None)"
proof -
  let ?vs = "sort_Slice h lessModTime videos"
  have m: "mset ?vs = mset videos"
    using assms(2) unfolding sort_Slice_contract_def by blast
  then have "set ?vs = set videos" by (rule mset_eq_setD)
  with assms(3) have "\<forall>v \<in> set ?vs. snd (Abs h (Path v)) = None" by simp
  then have "absPaths h ?vs [] = (map (\<lambda>v. fst (Abs h (Path v))) ?vs, None)"
    using absPaths_ok[of ?vs h "[]"] by simp
  with assms(1) have "findAndSortVideos h dir = (map (\<lambda>v. fst (Abs h (Path v))) ?vs, None)"
    by (simp add: findAndSortVideos_def)
  with m contract_sorted[OF assms(2)] show ?thesis by blast
qed

text \<open>The example host: the three videos under \<^verbatim>\<open>videos\<close>.\<close>

theorem sorter_ascending_permutation_witness:
  "\<exists>vs. mset vs = mset demo_videos \<and> sorted (map ModTime vs)
     \<and> findAndSortVideos demo_host ''videos'' = (map (\<lambda>v. fst (Abs demo_host (Path v))) vs, None)"
  using sorter_ascending_permutation[OF demo_scan demo_contract demo_abs] .

text \<open>
  C2 as stated fails: on the host above, whose sort keeps the promise of \<^verbatim>\<open>sort.Slice\<close>,
  the videos \<^verbatim>\<open>b.mp4\<close> to \<^verbatim>\<open>g.mp4\<close> have the same modification time and are scanned in
  this order, and \<^verbatim>\<open>g.mp4\<close> comes out before the other five. The last equation gives the
  stable order, for comparison.
\<close>

theorem sorter_not_stable_counterexample:
  "sort_Slice_contract gap_host
   \<and> scanVideos gap_host ''ties'' = (None, ties_videos)
   \<and> findAndSortVideos gap_host ''ties'' =
       ([''/home/user/ties/g.mp4'', ''/home/user/ties/b.mp4'', ''/home/user/ties/c.mp4'',
         ''/home/user/ties/d.mp4'', ''/home/user/ties/e.mp4'', ''/home/user/ties/f.mp4'',
         ''/home/user/ties/a.mp4''], None)
   \<and> map (\<lambda>v. fst (Abs gap_host (Path v))) (sort_key ModTime ties_videos) =
       [''/home/user/ties/b.mp4'', ''/home/user/ties/c.mp4'', ''/home/user/ties/d.mp4'',
        ''/home/user/ties/e.mp4'', ''/home/user/ties/f.mp4'', ''/home/user/ties/g.mp4'',
        ''/home/user/ties/a.mp4'']"
proof (intro conjI)
  show "sort_Slice_contract gap_host" by (rule gap_contract)
  show "scanVideos gap_host ''ties'' = (None, ties_videos)" by code_simp
  show "findAndSortVideos gap_host ''ties'' =
       ([''/home/user/ties/g.mp4'', ''/home/user/ties/b.mp4'', ''/home/user/ties/c.mp4'',
         ''/home/user/ties/d.mp4'', ''/home/user/ties/e.mp4'', ''/home/user/ties/f.mp4'',
         ''/home/user/ties/a.mp4''], None)" by code_simp
  show "map (\<lambda>v. fst (Abs gap_host (Path v))) (sort_key ModTime ties_videos) =
       [''/home/user/ties/b.mp4'', ''/home/user/ties/c.mp4'', ''/home/user/ties/d.mp4'',
        ''/home/user/ties/e.mp4'', ''/home/user/ties/f.mp4'', ''/home/user/ties/g.mp4'',
        ''/home/user/ties/a.mp4'']" by code_simp
qed

text \<open>
  C3, as amended. For every path, single quotes included, each turn of the loop whose write
  succeeds hands the writer the directive of the path, \<^verbatim>\<open>file '\<close>, the path with each single
  quote replaced by quote, backslash, quote, quote, a closing quote and a newline; for a
  single path, created and written without error, that directive is the content of the
  manifest. Reading the directive back by the quoting rule gives the path itself, with the
  newline left over. When the path contains no newline, the directive is one line, and
  reading that line back gives the path.
\<close>

theorem manifest_line_roundtrip:
  "(writeString h k = None \<longrightarrow>
      writeLines h k (path # paths) accepted =
        writeLines h (Suc k) paths (accepted @ escaped_line path))
   \<and> (createTemp h = Inr random \<and> writeString h 0 = None \<and> flush h = None \<longrightarrow>
        createConcatListFile h [path] fs =
          (fs(tempName h random \<mapsto> escaped_line path), tempName h random, None))
   \<and> parse_directive (escaped_line path) = Some (path, [newline])
   \<and> (newline \<notin> set path \<longrightarrow>
        escaped_line path = first_line (escaped_line path) @ [newline]
        \<and> parse_directive (first_line (escaped_line path)) = Some (path, []))"
proof (intro conjI impI)
  assume "writeString h k = None"
  then show "writeLines h k (path # paths) accepted =
        writeLines h (Suc k) paths (accepted @ escaped_line path)"
    by (simp only: writeLines_step directive_escaped_line)
next
  assume a: "createTemp h = Inr random \<and> writeString h 0 = None \<and> flush h = None"
  then have "\<forall>k < length [path]. writeString h k = None" by simp
  from writeLines_all_ok[OF this] a
  show "createConcatListFile h [path] fs =
          (fs(tempName h random \<mapsto> escaped_line path), tempName h random, None)"
    by (simp add: createConcatListFile_def Let_def directive_escaped_line)
next
  show "parse_directive (escaped_line path) = Some (path, [newline])"
    using parse_directive_directive[of path "[]"] by (simp add: directive_escaped_line)
next
  assume n: "newline \<notin> set path"
  show "escaped_line path = first_line (escaped_line path) @ [newline]"
    using first_line_directive[OF n]
    by (simp add: directive_escaped_line[symmetric] directive_def Sprintf_file_def)
  show "parse_directive (first_line (escaped_line path)) = Some (path, [])"
    using parse_first_line[OF n] by (simp only: directive_escaped_line)
qed

text \<open>
  The spec's scenario on the example host: \<^verbatim>\<open>O'Brien/clip.mp4\<close> gives the manifest
  \<^verbatim>\<open>file 'O'\''Brien/clip.mp4'\<close>, which reads back as the path.
\<close>

theorem manifest_line_roundtrip_witness:
  "createConcatListFile demo_host [''O'' @ [quote] @ ''Brien/clip.mp4''] Map.empty =
     ([''/tmp/concat-list-123.txt'' \<mapsto>
         ''file '' @ [quote] @ ''O'' @ [quote, backslash, quote, quote] @ ''Brien/clip.mp4''
           @ [quote, newline]],
      ''/tmp/concat-list-123.txt'', None)
   \<and> parse_directive (''file '' @ [quote] @ ''O'' @ [quote, backslash, quote, quote]
         @ ''Brien/clip.mp4'' @ [quote, newline])
       = Some (''O'' @ [quote] @ ''Brien/clip.mp4'', [newline])
   \<and> parse_directive (first_line (''file '' @ [quote] @ ''O'' @ [quote, backslash, quote, quote]
         @ ''Brien/clip.mp4'' @ [quote, newline]))
       = Some (''O'' @ [quote] @ ''Brien/clip.mp4'', [])"
proof -
  let ?p = "''O'' @ [quote] @ ''Brien/clip.mp4''"
  have e: "escaped_line ?p =
      ''file '' @ [quote] @ ''O'' @ [quote, backslash, quote, quote] @ ''Brien/clip.mp4''
        @ [quote, newline]"
    by (simp add: escaped_line_def quote_def)
  have a: "createTemp demo_host = Inr ''123'' \<and> writeString demo_host 0 = None
      \<and> flush demo_host = None"
    by (simp add: demo_host_def)
  have n: "tempName demo_host ''123'' = ''/tmp/concat-list-123.txt''"
    by code_simp
  have l: "newline \<notin> set ?p"
    by (simp add: newline_def quote_def)
  from manifest_line_roundtrip[of demo_host 0 ?p "[]" "[]" "''123''" Map.empty,
      unfolded e n] a l
  show ?thesis by blast
qed

text \<open>
  C3 as stated fails: for a path that contains a newline, what the loop writes is two
  lines, and reading the first of them back gives \<^verbatim>\<open>a\<close>, not the path.
\<close>

theorem manifest_line_counterexample:
  "snd (writeLines demo_host 0 [''a'' @ [newline] @ ''b.mp4''] []) = None
   \<and> count_list (fst (writeLines demo_host 0 [''a'' @ [newline] @ ''b.mp4''] [])) newline = 2
   \<and> parse_directive (first_line (fst (writeLines demo_host 0 [''a'' @ [newline] @ ''b.mp4''] [])))
       = Some (''a'', [])"
  by code_simp

text \<open>
  C4. When the tree under the root is readable, the scan returns exactly the entries that
  are not directories and whose extension, in lower case, is one of \<^verbatim>\<open>.mp4\<close>, \<^verbatim>\<open>.mov\<close>,
  \<^verbatim>\<open>.mkv\<close>, \<^verbatim>\<open>.avi\<close>, at any depth, in the order of the walk; and when there is none,
  \<^verbatim>\<open>findAndSortVideos\<close> returns the empty list and no error. When the tree is not readable,
  \<^verbatim>\<open>findAndSortVideos\<close> returns an error and no path.
\<close>

theorem scan_returns_supported_files:
  "(readable (lstat h dir) \<longrightarrow>
      scanVideos h dir = (None, videosOf h (tree_files h dir (lstat h dir)))
      \<and> (sort_Slice_contract h \<longrightarrow> videosOf h (tree_files h dir (lstat h dir)) = [] \<longrightarrow>
           findAndSortVideos h dir = ([], None)))
   \<and> (\<not> readable (lstat h dir) \<longrightarrow> (\<exists>e. findAndSortVideos h dir = ([], Some e)))"
proof (intro conjI impI)
  assume r: "readable (lstat h dir)"
  then show scan: "scanVideos h dir = (None, videosOf h (tree_files h dir (lstat h dir)))"
    by (rule scanVideos_readable)
  assume "sort_Slice_contract h" and "videosOf h (tree_files h dir (lstat h dir)) = []"
  with scan show "findAndSortVideos h dir = ([], None)"
    by (simp add: findAndSortVideos_def contract_Nil)
next
  assume "\<not> readable (lstat h dir)"
  then show "\<exists>e. findAndSortVideos h dir = ([], Some e)"
    by (rule scanVideos_unreadable)
qed

text \<open>
  The example host: under \<^verbatim>\<open>videos\<close> the scan finds \<^verbatim>\<open>a.mov\<close>, \<^verbatim>\<open>b.MP4\<close> and
  \<^verbatim>\<open>sub/d.mkv\<close>, and neither the text file nor the directory \<^verbatim>\<open>sub/e.avi\<close>; under
  \<^verbatim>\<open>docs\<close> it finds nothing, and the result is empty without an error.
\<close>

theorem scan_returns_supported_files_witness:
  "scanVideos demo_host ''videos'' = (None, demo_videos)
   \<and> findAndSortVideos demo_host ''docs'' = ([], None)"
proof -
  have d: "readable (lstat demo_host ''docs'')"
    and e: "videosOf demo_host (tree_files demo_host ''docs'' (lstat demo_host ''docs'')) = []"
    by (simp_all add: demo_host_def docs_tree_def videosOf_def isVideoPath_def ToLower_def
          Ext_def IsPathSeparator_def isASCII_def asciiLower_def)
  from scan_returns_supported_files[of demo_host "''videos''"] demo_readable demo_videosOf
  have "scanVideos demo_host ''videos'' = (None, demo_videos)" by simp
  moreover from scan_returns_supported_files[of demo_host "''docs''"] d e demo_contract
  have "findAndSortVideos demo_host ''docs'' = ([], None)" by simp
  ultimately show ?thesis by simp
qed

text \<open>
  C5, as amended. When the temporary file is created and every write and the flush succeed,
  the manifest is the directives of the input paths, one for each, in the input order:
  reading it back gives exactly the list of input paths. When no path contains a newline,
  the manifest has as many lines as there are paths.
\<close>

theorem manifest_directives_in_order:
  assumes "createTemp h = Inr random"
    and "\<forall>k < length paths. writeString h k = None"
    and "flush h = None"
  shows "createConcatListFile h paths fs =
           (fs(tempName h random \<mapsto> concat (map directive paths)), tempName h random, None)
     \<and> parse_manifest (concat (map directive paths)) = Some paths
     \<and> ((\<forall>p \<in> set paths. newline \<notin> set p) \<longrightarrow>
          manifest_lines (fst (createConcatListFile h paths fs)) (tempName h random)
            = Some (length paths))"
proof -
  have c: "createConcatListFile h paths fs =
           (fs(tempName h random \<mapsto> concat (map directive paths)), tempName h random, None)"
    using assms(1,3) writeLines_all_ok[OF assms(2)]
    by (simp add: createConcatListFile_def Let_def)
  then show ?thesis
    by (simp add: parse_manifest_directives manifest_lines_def count_newline_directives)
qed

text \<open>The example host: two paths, two directives, two lines.\<close>

theorem manifest_directives_in_order_witness:
  "createConcatListFile demo_host [''/v/a.mov'', ''/v/b.mp4''] Map.empty =
     ([''/tmp/concat-list-123.txt'' \<mapsto> concat (map directive [''/v/a.mov'', ''/v/b.mp4''])],
      ''/tmp/concat-list-123.txt'', None)
   \<and> parse_manifest (concat (map directive [''/v/a.mov'', ''/v/b.mp4'']))
       = Some [''/v/a.mov'', ''/v/b.mp4'']
   \<and> manifest_lines (fst (createConcatListFile demo_host [''/v/a.mov'', ''/v/b.mp4''] Map.empty))
         ''/tmp/concat-list-123.txt'' = Some (length [''/v/a.mov'', ''/v/b.mp4''])"
proof -
  have a: "createTemp demo_host = Inr ''123''"
    and b: "\<forall>k < length [''/v/a.mov'', ''/v/b.mp4'']. writeString demo_host k = None"
    and c: "flush demo_host = None"
    and d: "\<forall>p \<in> set [''/v/a.mov'', ''/v/b.mp4'']. newline \<notin> set p"
    by (simp_all add: demo_host_def newline_def)
  have n: "tempName demo_host ''123'' = ''/tmp/concat-list-123.txt''"
    by code_simp
  from manifest_directives_in_order[OF a b c, of Map.empty, unfolded n] d show ?thesis
    by blast
qed

text \<open>
  C5 as stated fails: for one path that contains a newline, the manifest written has two
  lines.
\<close>

theorem manifest_lines_counterexample:
  "createConcatListFile demo_host [''a'' @ [newline] @ ''b.mp4''] Map.empty =
     ([''/tmp/concat-list-123.txt'' \<mapsto> directive (''a'' @ [newline] @ ''b.mp4'')],
      ''/tmp/concat-list-123.txt'', None)
   \<and> manifest_lines (fst (createConcatListFile demo_host [''a'' @ [newline] @ ''b.mp4''] Map.empty))
         ''/tmp/concat-list-123.txt'' = Some 2
   \<and> length [''a'' @ [newline] @ ''b.mp4''] = 1"
proof -
  have a: "createTemp demo_host = Inr ''123''"
    and b: "\<forall>k < length [''a'' @ [newline] @ ''b.mp4'']. writeString demo_host k = None"
    and c: "flush demo_host = None"
    by (simp_all add: demo_host_def)
  have n: "tempName demo_host ''123'' = ''/tmp/concat-list-123.txt''"
    by code_simp
  have l: "count_list (directive (''a'' @ [newline] @ ''b.mp4'')) newline = 2"
    by (simp add: directive_def Sprintf_file_def newline_def quote_def)
  have "createConcatListFile demo_host [''a'' @ [newline] @ ''b.mp4''] Map.empty =
     ([''/tmp/concat-list-123.txt'' \<mapsto> directive (''a'' @ [newline] @ ''b.mp4'')],
      ''/tmp/concat-list-123.txt'', None)"
    using a c n writeLines_all_ok[OF b] by (simp add: createConcatListFile_def Let_def)
  then show ?thesis using l by (simp add: manifest_lines_def)
qed

text \<open>
  C6. When \<^verbatim>\<open>ffmpeg\<close> is not found, the run ends with status 1, the files are what they
  were, and the run has neither scanned a directory nor created a manifest. In every run,
  whatever the host, the first thing done is the search for \<^verbatim>\<open>ffmpeg\<close>, unless the run
  stops at the missing required flags.
\<close>

theorem tool_check_first:
  "(\<not> isFFmpegAvailable h \<longrightarrow>
      exit_code (main h args fs) = 1
      \<and> files_after (main h args fs) = fs
      \<and> (\<forall>d. Scan d \<notin> set (trace (main h args fs)))
      \<and> CreateList \<notin> set (trace (main h args fs)))
   \<and> (trace (main h args fs) = [PrintUsage]
        \<or> (\<exists>rest. trace (main h args fs) = LookPath ''ffmpeg'' # rest))"
  by (simp add: main_def Let_def split: prod.splits option.splits)

text \<open>The example host without \<^verbatim>\<open>ffmpeg\<close>: the search is all the run does.\<close>

theorem tool_check_first_witness:
  "exit_code (main no_tool_host demo_args Map.empty) = 1
   \<and> files_after (main no_tool_host demo_args Map.empty) = Map.empty
   \<and> trace (main no_tool_host demo_args Map.empty) = [LookPath ''ffmpeg'']"
proof -
  have a: "\<not> isFFmpegAvailable no_tool_host"
    by (simp add: isFFmpegAvailable_def no_tool_host_def)
  have t: "trace (main no_tool_host demo_args Map.empty) = [LookPath ''ffmpeg'']"
    using a by (simp add: main_def demo_args_def flag_value_def)
  from tool_check_first[of no_tool_host demo_args Map.empty] a t show ?thesis by simp
qed

text \<open>
  C7, as amended. Without the \<^verbatim>\<open>-encoder\<close> flag the encoder depends on \<^verbatim>\<open>runtime.GOOS\<close>
  alone: \<^verbatim>\<open>hevc_nvenc\<close> on \<^verbatim>\<open>windows\<close>, \<^verbatim>\<open>hevc_videotoolbox\<close> on \<^verbatim>\<open>darwin\<close>,
  \<^verbatim>\<open>libx265\<close> anywhere else. An encoder given with the flag is used unchanged when it is not
  the empty string; the empty string given with the flag selects the same encoder as no
  flag.
\<close>

theorem default_encoder_by_platform:
  "chooseEncoder h (flag_value None []) =
     (if GOOS h = ''windows'' then ''hevc_nvenc''
      else if GOOS h = ''darwin'' then ''hevc_videotoolbox''
      else ''libx265'')
   \<and> (e \<noteq> [] \<longrightarrow> chooseEncoder h (flag_value (Some e) []) = e)
   \<and> chooseEncoder h (flag_value (Some []) []) = chooseEncoder h (flag_value None [])"
  by (simp add: chooseEncoder_def flag_value_def getDefaultEncoder_def)

text \<open>The spec's scenario: on macOS without the flag, the VideoToolbox encoder.\<close>

theorem default_encoder_by_platform_witness:
  "chooseEncoder (demo_host\<lparr>GOOS := ''darwin''\<rparr>) (flag_value None []) = ''hevc_videotoolbox''
   \<and> chooseEncoder (demo_host\<lparr>GOOS := ''darwin''\<rparr>) (flag_value (Some ''libx264'') []) = ''libx264''"
  using default_encoder_by_platform[of "demo_host\<lparr>GOOS := ''darwin''\<rparr>" "''libx264''"]
  by simp

text \<open>
  C7 as stated fails: the empty string, given with the flag on Linux, is not used
  unchanged.
\<close>

theorem explicit_empty_encoder_counterexample:
  "chooseEncoder demo_host (flag_value (Some []) []) = ''libx265''
   \<and> chooseEncoder demo_host (flag_value (Some []) []) \<noteq> []"
  by (simp add: chooseEncoder_def flag_value_def getDefaultEncoder_def demo_host_def)

text \<open>
  C8, as amended. For every list of entries the scan returns, \<^verbatim>\<open>findAndSortVideos\<close>
  replaces the path of every sorted entry by \<^verbatim>\<open>filepath.Abs\<close> of it: when all calls succeed
  it returns the results in the sorted order, and when one fails it returns the empty list
  together with the error that wraps the path of the first failing entry and the cause.
  \<^verbatim>\<open>filepath.Abs\<close> fails, on a system other than Windows, exactly for a relative path when
  the working directory cannot be determined, and on Windows exactly when the full path of
  the name cannot be computed; where it succeeds off Windows, the result is the cleaned path
  for an absolute path and the working directory joined with the path otherwise. It does
  not look at the files: whatever the file tree and the targets of links are by then, the
  loop gives the same result. When the path library keeps its promise about absolute
  paths, every path returned is absolute.
\<close>

theorem path_resolution_all_or_nothing:
  assumes "scanVideos h dir = (None, videos)"
  shows "findAndSortVideos h dir =
     (case find (\<lambda>v. snd (Abs h (Path v)) \<noteq> None) (sort_Slice h lessModTime videos) of
        None \<Rightarrow> (map (\<lambda>v. fst (Abs h (Path v))) (sort_Slice h lessModTime videos), None)
      | Some v \<Rightarrow> ([], Some (AbsPathError (Path v) (the (snd (Abs h (Path v)))))))
   \<and> (\<forall>p. snd (Abs h p) \<noteq> None \<longleftrightarrow>
          (if GOOS h = ''windows''
           then snd (FullPath h (if p = [] then ''.'' else p)) \<noteq> None
           else \<not> IsAbs p \<and> snd (Getwd h) \<noteq> None))
   \<and> (GOOS h \<noteq> ''windows'' \<longrightarrow>
        (\<forall>p. snd (Abs h p) = None \<longrightarrow>
           fst (Abs h p) = (if IsAbs p then Clean h p else Join h (fst (Getwd h)) p)))
   \<and> (\<forall>tree stat vs acc. absPaths (h\<lparr>lstat := tree, Stat := stat\<rparr>) vs acc = absPaths h vs acc)
   \<and> (GOOS h \<noteq> ''windows'' \<and> path_contract h \<longrightarrow>
        (\<forall>q \<in> set (fst (findAndSortVideos h dir)). IsAbs q))"
proof (intro conjI allI impI)
  show "findAndSortVideos h dir =
     (case find (\<lambda>v. snd (Abs h (Path v)) \<noteq> None) (sort_Slice h lessModTime videos) of
        None \<Rightarrow> (map (\<lambda>v. fst (Abs h (Path v))) (sort_Slice h lessModTime videos), None)
      | Some v \<Rightarrow> ([], Some (AbsPathError (Path v) (the (snd (Abs h (Path v)))))))"
    using assms absPaths_find[of h "sort_Slice h lessModTime videos" "[]"]
    by (simp add: findAndSortVideos_def split: option.splits)
next
  fix p
  show "snd (Abs h p) \<noteq> None \<longleftrightarrow>
          (if GOOS h = ''windows''
           then snd (FullPath h (if p = [] then ''.'' else p)) \<noteq> None
           else \<not> IsAbs p \<and> snd (Getwd h) \<noteq> None)"
    by (rule Abs_fails_iff)
next
  fix p
  assume "GOOS h \<noteq> ''windows''" and "snd (Abs h p) = None"
  then show "fst (Abs h p) = (if IsAbs p then Clean h p else Join h (fst (Getwd h)) p)"
    by (rule Abs_result)
next
  fix tree stat vs acc
  show "absPaths (h\<lparr>lstat := tree, Stat := stat\<rparr>) vs acc = absPaths h vs acc"
    by (rule absPaths_ignores_files)
next
  assume c: "GOOS h \<noteq> ''windows'' \<and> path_contract h"
  then have "\<forall>q \<in> set (fst (absPaths h (sort_Slice h lessModTime videos) [])). IsAbs q"
    using absPaths_absolute[of h "[]" "sort_Slice h lessModTime videos"] by simp
  with assms show "\<forall>q \<in> set (fst (findAndSortVideos h dir)). IsAbs q"
    by (simp add: findAndSortVideos_def)
qed

text \<open>
  The example host whose working directory cannot be determined: the run of the loop ends
  at the first entry, with no path.
\<close>

theorem path_resolution_all_or_nothing_witness:
  "findAndSortVideos no_cwd_host ''videos'' =
     ([], Some (AbsPathError ''videos/a.mov'' (OSError ''getwd: no such file or directory'')))"
proof -
  have f: "find (\<lambda>v. snd (Abs no_cwd_host (Path v)) \<noteq> None)
             (sort_Slice no_cwd_host lessModTime demo_videos)
           = Some \<lparr>Path = ''videos/a.mov'', ModTime = 1\<rparr>"
    by code_simp
  have e: "the (snd (Abs no_cwd_host ''videos/a.mov''))
           = OSError ''getwd: no such file or directory''"
    by code_simp
  from path_resolution_all_or_nothing[OF no_cwd_scan] f e show ?thesis by simp
qed

text \<open>
  C8 as stated fails: on the host where \<^verbatim>\<open>videos/a.mov\<close> is a symbolic link whose target
  is missing, the scan finds the link and \<^verbatim>\<open>findAndSortVideos\<close> returns its absolute path
  with the others, without an error.
\<close>

theorem broken_link_counterexample:
  "Stat broken_link_host ''videos/a.mov'' \<noteq> None
   \<and> scanVideos broken_link_host ''videos'' = (None, demo_videos)
   \<and> findAndSortVideos broken_link_host ''videos'' =
       ([''/home/user/videos/a.mov'', ''/home/user/videos/sub/d.mkv'',
         ''/home/user/videos/b.MP4''], None)"
  by code_simp

text \<open>
  C9. A run with \<^verbatim>\<open>-encoder ""\<close> is the run without the flag; the empty encoder string
  selects the default; and every command a run executes has \<^verbatim>\<open>-c:v\<close> as its tenth word
  and a non-empty eleventh word.
\<close>

theorem empty_encoder_selects_default:
  "main h (args\<lparr>arg_encoder := Some []\<rparr>) fs = main h (args\<lparr>arg_encoder := None\<rparr>) fs
   \<and> chooseEncoder h [] = getDefaultEncoder h
   \<and> (\<forall>cmd. RunCommand cmd \<in> set (trace (main h args fs)) \<longrightarrow>
        length cmd = 17 \<and> cmd ! 9 = ''-c:v'' \<and> cmd ! 10 \<noteq> [])"
proof (intro conjI allI impI)
  show "main h (args\<lparr>arg_encoder := Some []\<rparr>) fs = main h (args\<lparr>arg_encoder := None\<rparr>) fs"
    by (simp add: main_def flag_value_def)
  show "chooseEncoder h [] = getDefaultEncoder h"
    by (simp add: chooseEncoder_def)
next
  fix cmd
  assume "RunCommand cmd \<in> set (trace (main h args fs))"
  from main_RunCommand[OF this] obtain l r f out where
    cmd: "cmd = ffmpegCommand l r f (chooseEncoder h (flag_value (arg_encoder args) [])) out"
    by blast
  show "length cmd = 17" using cmd by (simp add: ffmpegCommand_def)
  show "cmd ! 9 = ''-c:v''" using cmd by (simp add: ffmpegCommand_def)
  show "cmd ! 10 \<noteq> []" using cmd chooseEncoder_nonempty by (simp add: ffmpegCommand_def)
qed

text \<open>The example host: its command names \<^verbatim>\<open>libx265\<close>.\<close>

theorem empty_encoder_selects_default_witness:
  "main demo_host (demo_args\<lparr>arg_encoder := Some []\<rparr>) Map.empty
     = main demo_host (demo_args\<lparr>arg_encoder := None\<rparr>) Map.empty
   \<and> RunCommand demo_command \<in> set (trace (main demo_host demo_args Map.empty))
   \<and> demo_command ! 10 \<noteq> []"
  using empty_encoder_selects_default[of demo_host demo_args Map.empty] demo_trace
  by simp

text \<open>
  C10. When the \<open>i\<close>-th write is the first to fail, \<^verbatim>\<open>createConcatListFile\<close> returns the
  empty string and the error of that write; the temporary file is still among the files,
  and removing the empty path leaves it there. A run that reaches this point ends with
  status 1, removes nothing, and leaves the file behind.
\<close>

theorem write_error_leaves_manifest:
  assumes "createTemp h = Inr random"
    and "i < length paths"
    and "writeString h i = Some e"
    and "\<forall>j < i. writeString h j = None"
  shows "createConcatListFile h paths fs =
           (fs(tempName h random \<mapsto>
                 take (persisted h) (concat (map directive (take (Suc i) paths)))),
            [], Some e)
     \<and> os_Remove [] (fst (createConcatListFile h paths fs)) (tempName h random) \<noteq> None
     \<and> (arg_dir args = Some dir \<and> dir \<noteq> [] \<and> arg_output args = Some out \<and> out \<noteq> []
          \<and> isFFmpegAvailable h \<and> findAndSortVideos h dir = (paths, None) \<longrightarrow>
        exit_code (main h args fs) = 1
        \<and> files_after (main h args fs) (tempName h random) \<noteq> None
        \<and> (\<forall>name. Remove name \<notin> set (trace (main h args fs))))"
proof -
  let ?fs' = "fs(tempName h random \<mapsto>
                 take (persisted h) (concat (map directive (take (Suc i) paths))))"
  have c: "createConcatListFile h paths fs = (?fs', [], Some e)"
    using assms(1) writeLines_first_failure[OF assms(2,3,4)]
    by (simp add: createConcatListFile_def Let_def)
  have r: "os_Remove [] (fst (createConcatListFile h paths fs)) (tempName h random) \<noteq> None"
    using c by (simp add: os_Remove_def)
  have m: "exit_code (main h args fs) = 1
        \<and> files_after (main h args fs) (tempName h random) \<noteq> None
        \<and> (\<forall>name. Remove name \<notin> set (trace (main h args fs)))"
    if "arg_dir args = Some dir \<and> dir \<noteq> [] \<and> arg_output args = Some out \<and> out \<noteq> []
          \<and> isFFmpegAvailable h \<and> findAndSortVideos h dir = (paths, None)"
  proof -
    from assms(2) have "paths \<noteq> []" by auto
    with that c show ?thesis
      by (simp add: main_def flag_value_def Let_def)
  qed
  from c r m show ?thesis by blast
qed

text \<open>The example host whose second write fails.\<close>

theorem write_error_leaves_manifest_witness:
  "createConcatListFile full_disk_host
       [''/home/user/videos/a.mov'', ''/home/user/videos/sub/d.mkv'', ''/home/user/videos/b.MP4'']
       Map.empty =
     ([''/tmp/concat-list-123.txt'' \<mapsto> []], [], Some (OSError ''no space left on device''))
   \<and> exit_code (main full_disk_host demo_args Map.empty) = 1
   \<and> files_after (main full_disk_host demo_args Map.empty) ''/tmp/concat-list-123.txt'' \<noteq> None"
proof -
  let ?paths = "[''/home/user/videos/a.mov'', ''/home/user/videos/sub/d.mkv'',
                 ''/home/user/videos/b.MP4'']"
  have a: "createTemp full_disk_host = Inr ''123''"
    and b: "1 < length ?paths"
    and c: "writeString full_disk_host 1 = Some (OSError ''no space left on device'')"
    and d: "\<forall>j < 1. writeString full_disk_host j = None"
    and p: "persisted full_disk_host = 0"
    by (simp_all add: full_disk_host_def demo_host_def)
  have n: "tempName full_disk_host ''123'' = ''/tmp/concat-list-123.txt''"
    by code_simp
  have f: "findAndSortVideos full_disk_host ''videos'' = (?paths, None)"
    by code_simp
  have g: "arg_dir demo_args = Some ''videos'' \<and> ''videos'' \<noteq> []
      \<and> arg_output demo_args = Some ''out.mp4'' \<and> ''out.mp4'' \<noteq> []
      \<and> isFFmpegAvailable full_disk_host"
    by (simp add: demo_args_def full_disk_host_def demo_host_def isFFmpegAvailable_def)
  from write_error_leaves_manifest[OF a b c d, of Map.empty demo_args "''videos''" "''out.mp4''",
      unfolded n p] f g
  show ?thesis by simp
qed

section \<open>More on the removal of the manifest\<close>

text \<open>
  Whenever the command has been run and has failed, the run ends with status 1 and the
  manifest is still there: \<^verbatim>\<open>log.Fatalf\<close> leaves no room for the deferred removal.
\<close>

theorem failed_run_keeps_manifest:
  assumes "RunCommand cmd \<in> set (trace (main h args fs))"
    and "run h cmd \<noteq> None"
  shows "\<exists>random. createTemp h = Inr random
           \<and> exit_code (main h args fs) = 1
           \<and> files_after (main h args fs) (tempName h random) \<noteq> None
           \<and> Remove (tempName h random) \<notin> set (trace (main h args fs))"
  using assms
  by (auto simp: main_def Let_def createConcatListFile_def
           split: if_splits prod.splits option.splits sum.splits)

text \<open>The example host whose \<^verbatim>\<open>ffmpeg\<close> fails.\<close>

theorem failed_run_keeps_manifest_witness:
  "exit_code (main failing_host demo_args Map.empty) = 1
   \<and> files_after (main failing_host demo_args Map.empty) (tempName failing_host ''123'') \<noteq> None"
proof -
  have t: "RunCommand demo_command \<in> set (trace (main failing_host demo_args Map.empty))"
    by code_simp
  have r: "run failing_host demo_command \<noteq> None"
    by (simp add: failing_host_def)
  have c: "createTemp failing_host = Inr ''123''"
    by (simp add: failing_host_def demo_host_def)
  from failed_run_keeps_manifest[OF t r] c show ?thesis by auto
qed

text \<open>
  A run that ends with status 0 has removed the manifest, as the last thing it did.
\<close>

theorem successful_run_removes_manifest:
  assumes "exit_code (main h args fs) = 0"
  shows "\<exists>random. createTemp h = Inr random
           \<and> files_after (main h args fs) (tempName h random) = None
           \<and> last (trace (main h args fs)) = Remove (tempName h random)"
  using assms
  by (auto simp: main_def Let_def createConcatListFile_def os_Remove_def tempName_def
           split: if_splits prod.splits option.splits sum.splits)

text \<open>The example host.\<close>

theorem successful_run_removes_manifest_witness:
  "files_after (main demo_host demo_args Map.empty) (tempName demo_host ''123'') = None"
proof -
  have e: "exit_code (main demo_host demo_args Map.empty) = 0"
    by code_simp
  have c: "createTemp demo_host = Inr ''123''"
    by (simp add: demo_host_def)
  from successful_run_removes_manifest[OF e] c show ?thesis by auto
qed

end
